theory Spec2Isabelle
  imports Complex_Main
begin

section \<open>Firestarter host client: a shallow embedding of \<open>firestarter/main.py\<close>\<close>

text \<open>
  The program talks to an EPROM programmer over a serial port. Everything outside the
  program is explicit state here:
  \<^item> the clock \<open>time.time()\<close> is a rational number of seconds;
  \<^item> a serial device is the list of results that successive read calls on its port will
    return, each with the time the call takes (\<open>Rx dt bytes\<close>), or a failing read
    (\<open>RxFail\<close>, pyserial's \<open>SerialException\<close>); once the list is used up the device is
    silent and every read returns no bytes after the port's read timeout of 1 second;
  \<^item> what the program prints is a list of output events, what it writes to a port is
    the list of written chunks, files are a map from names to contents.
  Bytes are values of type \<open>char\<close> (8 bits); a string that holds printable ASCII only has
  the same representation.

  The exceptions of the model are those the program's own expressions raise (a failing
  read or a port that cannot be opened, a manufacturer that is \<open>None\<close>, \<open>int\<close> of a
  string that is no number, unpacking a version with other than three parts, a division
  by zero). Writing to an open port and operations on files always succeed. A port is
  closed only by a call of \<open>close\<close>. The interpreter is Python 3.11 or later
  (\<open>to_bytes\<close> without a byte order, \<open>match\<close>).
\<close>

type_synonym byte = char

datatype exn = SerialException | TypeError | ValueError | AttributeError | ZeroDivisionError

text \<open>
  Output events: \<open>Print s\<close> is \<open>print(s)\<close>, \<open>PrintRaw s\<close> is \<open>print(s, end="")\<close>,
  \<open>Progress v p a b\<close> is \<open>print_progress(p, a, b)\<close> under verbosity \<open>v\<close>,
  \<open>PrintExn e\<close> is \<open>print("Error:", e)\<close> and \<open>Elapsed s d\<close> is a message \<open>s\<close> with a
  duration \<open>d\<close> formatted into it.
\<close>

datatype out_event =
    Print string
  | PrintRaw string
  | Progress bool int int int
  | PrintExn exn
  | Elapsed string rat

datatype rx_event = Rx rat "byte list" | RxFail

record serial =
  openable :: bool
  rx :: "rx_event list"
  tx :: "byte list list"
  is_open :: bool

record world =
  verbose :: bool
  clock :: rat
  stdout :: "out_event list"
  config :: "string \<rightharpoonup> string"
  config_file :: "(string \<rightharpoonup> string) option"
  comports :: "(string \<times> string option) list"
  ports :: "string \<Rightarrow> serial"
  files :: "string \<rightharpoonup> byte list"
  open_files :: "string set"

record eprom =
  name :: string
  memory_size :: int

datatype loop_exit = Broke | Returned | Raised exn

subsection \<open>Python string operations\<close>

text \<open>\<open>sub in s\<close>\<close>

fun str_in :: "string \<Rightarrow> string \<Rightarrow> bool" where
  "str_in sub [] = (sub = [])"
| "str_in sub (c # cs) = (take (length sub) (c # cs) = sub \<or> str_in sub cs)"

text \<open>\<open>s.rfind(sub)\<close>: the highest index at which \<open>sub\<close> starts, \<open>-1\<close> when there is none.\<close>

definition rfind :: "string \<Rightarrow> string \<Rightarrow> int" where
  "rfind s sub =
     (case filter (\<lambda>i. take (length sub) (drop i s) = sub) (rev [0..<Suc (length s)]) of
        [] \<Rightarrow> - 1
      | i # _ \<Rightarrow> int i)"

text \<open>\<open>s[i:]\<close>, where a negative \<open>i\<close> counts from the end.\<close>

definition slice_from :: "int \<Rightarrow> string \<Rightarrow> string" where
  "slice_from i s = (if i < 0 then drop (nat (int (length s) + i)) s else drop (nat i) s)"

text \<open>
  \<open>str.isspace\<close> on the 7-bit characters: tab to carriage return, the four separators
  28 to 31, and the space.
\<close>

definition isspace :: "char \<Rightarrow> bool" where
  "isspace c = (let n = (of_char c :: nat) in (9 \<le> n \<and> n \<le> 13) \<or> (28 \<le> n \<and> n \<le> 32))"

text \<open>\<open>s.strip()\<close>\<close>

definition strip :: "string \<Rightarrow> string" where
  "strip s = rev (dropWhile isspace (rev (dropWhile isspace s)))"

text \<open>\<open>s.split(sep)\<close> for a separator of one character.\<close>

fun split_on :: "char \<Rightarrow> string \<Rightarrow> string list" where
  "split_on sep [] = [[]]"
| "split_on sep (c # cs) =
     (if c = sep then [] # split_on sep cs
      else (case split_on sep cs of [] \<Rightarrow> [[c]] | p # ps \<Rightarrow> (c # p) # ps))"

text \<open>
  \<open>int(s)\<close> and \<open>int(s, 16)\<close>: surrounding whitespace is dropped, a sign may come first,
  base 16 may carry the prefix \<open>0x\<close>, and single underscores may separate digits.
  Anything else raises \<open>ValueError\<close>, as does a decimal numeral of more than 4300
  digits (the interpreter's default limit).
\<close>

definition digit_val :: "char \<Rightarrow> nat" where
  "digit_val c =
     (let n = (of_char c :: nat) in
      if 48 \<le> n \<and> n \<le> 57 then n - 48
      else if 97 \<le> n \<and> n \<le> 102 then n - 87
      else if 65 \<le> n \<and> n \<le> 70 then n - 55
      else 16)"

definition is_digit :: "nat \<Rightarrow> char \<Rightarrow> bool" where
  "is_digit base c = (digit_val c < base)"

fun digit_groups :: "nat \<Rightarrow> string \<Rightarrow> bool" where
  "digit_groups base [] = False"
| "digit_groups base [c] = is_digit base c"
| "digit_groups base (c # d # cs) =
     (is_digit base c \<and>
      (if d = CHR ''_'' then digit_groups base cs else digit_groups base (d # cs)))"

definition digits_value :: "nat \<Rightarrow> string \<Rightarrow> int" where
  "digits_value base ds =
     int (foldl (\<lambda>a c. base * a + digit_val c) 0 (filter (\<lambda>c. c \<noteq> CHR ''_'') ds))"

definition split_sign :: "string \<Rightarrow> bool \<times> string" where
  "split_sign t =
     (case t of
        [] \<Rightarrow> (False, [])
      | c # r \<Rightarrow> if c = CHR ''-'' then (True, r) else if c = CHR ''+'' then (False, r) else (False, t))"

definition py_int :: "string \<Rightarrow> exn + int" where
  "py_int s =
     (case split_sign (strip s) of
        (neg, ds) \<Rightarrow>
          if digit_groups 10 ds \<and> length (filter (\<lambda>c. c \<noteq> CHR ''_'') ds) \<le> 4300
          then Inr (if neg then - digits_value 10 ds else digits_value 10 ds)
          else Inl ValueError)"

definition py_int16 :: "string \<Rightarrow> exn + int" where
  "py_int16 s =
     (case split_sign (strip s) of
        (neg, u) \<Rightarrow>
          (let ds = (if take 2 u = ''0x'' \<or> take 2 u = ''0X''
                     then (if take 1 (drop 2 u) = ''_'' then drop 3 u else drop 2 u)
                     else u)
           in if digit_groups 16 ds
              then Inr (if neg then - digits_value 16 ds else digits_value 16 ds)
              else Inl ValueError))"

text \<open>
  \<open>int(a / b * 100)\<close>: the quotient is taken exactly here (the program computes it in
  binary floating point), and \<open>int\<close> rounds towards zero.
\<close>

definition py_trunc :: "rat \<Rightarrow> int" where
  "py_trunc x = (if 0 \<le> x then \<lfloor>x\<rfloor> else \<lceil>x\<rceil>)"

definition percent :: "int \<Rightarrow> int \<Rightarrow> exn + int" where
  "percent a b =
     (if b = 0 then Inl ZeroDivisionError
      else Inr (py_trunc (rat_of_int a / rat_of_int b * 100)))"

text \<open>\<open>n.to_bytes(2)\<close>: two bytes, most significant first (for \<open>n < 65536\<close>).\<close>

definition to_bytes2 :: "nat \<Rightarrow> byte list" where
  "to_bytes2 n = [char_of (n div 256), char_of (n mod 256)]"

subsection \<open>Console, clock, ports and files\<close>

definition py_print :: "string \<Rightarrow> world \<Rightarrow> world" where
  "py_print s w = w\<lparr>stdout := stdout w @ [Print s]\<rparr>"

definition print_raw :: "string \<Rightarrow> world \<Rightarrow> world" where
  "print_raw s w = w\<lparr>stdout := stdout w @ [PrintRaw s]\<rparr>"

definition print_progress :: "int \<Rightarrow> int \<Rightarrow> int \<Rightarrow> world \<Rightarrow> world" where
  "print_progress p from_address to_address w =
     w\<lparr>stdout := stdout w @ [Progress (verbose w) p from_address to_address]\<rparr>"

definition sleep :: "rat \<Rightarrow> world \<Rightarrow> world" where
  "sleep d w = w\<lparr>clock := clock w + d\<rparr>"

text \<open>\<open>serial.Serial(port, ...)\<close>: raises for a port that cannot be opened.\<close>

definition serial_open :: "string \<Rightarrow> world \<Rightarrow> exn + world" where
  "serial_open port w =
     (if openable (ports w port)
      then Inr (w\<lparr>ports := (ports w)(port := (ports w port)\<lparr>is_open := True\<rparr>)\<rparr>)
      else Inl SerialException)"

text \<open>\<open>ser.write(bs)\<close> (followed or not by \<open>ser.flush()\<close>) and \<open>ser.close()\<close>.\<close>

definition ser_write :: "string \<Rightarrow> byte list \<Rightarrow> world \<Rightarrow> world" where
  "ser_write ser bs w = w\<lparr>ports := (ports w)(ser := (ports w ser)\<lparr>tx := tx (ports w ser) @ [bs]\<rparr>)\<rparr>"

definition ser_close :: "string \<Rightarrow> world \<Rightarrow> world" where
  "ser_close ser w = w\<lparr>ports := (ports w)(ser := (ports w ser)\<lparr>is_open := False\<rparr>)\<rparr>"

text \<open>
  One read call on a port, \<open>ser.readline()\<close> or \<open>ser.read(n)\<close>: the next result of the
  device, or no bytes after one second when the device is silent.
\<close>

fun readline :: "rat \<Rightarrow> rx_event list \<Rightarrow> (exn + byte list) \<times> rat \<times> rx_event list" where
  "readline now [] = (Inr [], now + 1, [])"
| "readline now (Rx dt bs # rest) = (Inr bs, now + dt, rest)"
| "readline now (RxFail # rest) = (Inl SerialException, now, rest)"

definition ser_read :: "nat \<Rightarrow> string \<Rightarrow> world \<Rightarrow> (exn + byte list) \<times> world" where
  "ser_read n ser w =
     (case readline (clock w) (rx (ports w ser)) of
        (r, now1, rxs1) \<Rightarrow>
          (map_sum id (take n) r,
           w\<lparr>clock := now1, ports := (ports w)(ser := (ports w ser)\<lparr>rx := rxs1\<rparr>)\<rparr>))"

definition file_open_wb :: "string \<Rightarrow> world \<Rightarrow> world" where
  "file_open_wb f w = w\<lparr>files := (files w)(f \<mapsto> []), open_files := insert f (open_files w)\<rparr>"

definition file_write :: "string \<Rightarrow> byte list \<Rightarrow> world \<Rightarrow> world" where
  "file_write f bs w =
     w\<lparr>files := (files w)(f \<mapsto> (case files w f of None \<Rightarrow> bs | Some old \<Rightarrow> old @ bs))\<rparr>"

definition file_close :: "string \<Rightarrow> world \<Rightarrow> world" where
  "file_close f w = w\<lparr>open_files := open_files w - {f}\<rparr>"

definition save_config :: "world \<Rightarrow> world" where
  "save_config w = w\<lparr>config_file := Some (config w)\<rparr>"

subsection \<open>The response parser and the wait loop\<close>

definition read_filterd_bytes :: "byte list \<Rightarrow> string option" where
  "read_filterd_bytes byte_array =
     (let res = filter (\<lambda>b. 32 \<le> (of_char b :: nat) \<and> (of_char b :: nat) \<le> 126) byte_array
      in if res \<noteq> [] then Some res else None)"

definition write_feedback :: "bool \<Rightarrow> string \<Rightarrow> out_event list \<Rightarrow> out_event list" where
  "write_feedback verb msg out = (if verb then out @ [Print msg] else out)"

text \<open>
  The loop of \<open>wait_for_response\<close>, on what it touches: the verbosity, the local
  \<open>timeout\<close>, the clock, the device's pending results and the console.
\<close>

function wait_loop ::
  "bool \<Rightarrow> rat \<Rightarrow> rat \<Rightarrow> rx_event list \<Rightarrow> out_event list \<Rightarrow>
     (exn + string \<times> string) \<times> rat \<times> rx_event list \<times> out_event list" where
  "wait_loop verb timeout now rxs out =
     (case readline now rxs of
        (Inl e, now1, rxs1) \<Rightarrow> (Inl e, now1, rxs1, out)
      | (Inr byte_array, now1, rxs1) \<Rightarrow>
          (case read_filterd_bytes byte_array of
             None \<Rightarrow>
               if timeout + 5 < now1
               then (Inr (''ERROR'', ''Timeout''), now1, rxs1, out @ [Print '' --  Timeout''])
               else wait_loop verb timeout now1 rxs1 out
           | Some res \<Rightarrow>
               if str_in ''OK:'' res then
                 (let msg = slice_from (rfind res ''OK:'') res
                  in (Inr (''OK'', strip (drop 3 msg)), now1, rxs1, write_feedback verb msg out))
               else if str_in ''WARN:'' res then
                 (let msg = slice_from (rfind res ''WARN:'') res
                  in (Inr (''WARN'', strip (drop 5 msg)), now1, rxs1, write_feedback verb msg out))
               else if str_in ''ERROR:'' res then
                 (let msg = slice_from (rfind res ''ERROR:'') res
                  in (Inr (''ERROR'', strip (drop 6 msg)), now1, rxs1, write_feedback verb msg out))
               else if str_in ''DATA:'' res then
                 (let msg = slice_from (rfind res ''DATA:'') res
                  in (Inr (''DATA'', strip (drop 5 msg)), now1, rxs1, write_feedback verb msg out))
               else
                 (let out1 = (if str_in ''INFO:'' res
                              then write_feedback verb (slice_from (rfind res ''INFO:'') res) out
                              else out);
                      timeout1 = now1
                  in if timeout1 + 5 < now1
                     then (Inr (''ERROR'', ''Timeout''), now1, rxs1, out1 @ [Print '' --  Timeout''])
                     else wait_loop verb timeout1 now1 rxs1 out1)))"
  by pat_completeness auto
termination
proof (relation "measures [\<lambda>(v, t, now, rxs, out). length rxs,
                           \<lambda>(v, t, now, rxs, out). nat \<lceil>t + 6 - now\<rceil>]", goal_cases)
  case 1
  show ?case by simp
next
  case (2 verb timeout now rxs out x y b now1 rxs1)
  show ?case
  proof (cases rxs)
    case Nil
    with 2 have eq: "now1 = now + 1" "rxs1 = []" by auto
    from 2 have le: "now1 \<le> timeout + 5" by simp
    have "timeout + 6 - now1 = (timeout + 6 - now) - 1" using eq by simp
    then have c: "\<lceil>timeout + 6 - now1\<rceil> = \<lceil>timeout + 6 - now\<rceil> - 1"
      by (simp only: ceiling_diff_one)
    have "1 < timeout + 6 - now" using eq le by simp
    then have "1 < \<lceil>timeout + 6 - now\<rceil>" by (simp add: less_ceiling_iff)
    with c Nil eq show ?thesis by simp
  next
    case (Cons e es)
    with 2 show ?thesis by (cases e) auto
  qed
next
  case (3 verb timeout now rxs out x y b now1 rxs1 res out1 timeout1)
  show ?case
  proof (cases rxs)
    case Nil
    with 3 show ?thesis by (auto simp: read_filterd_bytes_def)
  next
    case (Cons e es)
    with 3 show ?thesis by (cases e) auto
  qed
qed

declare wait_loop.simps [simp del]

definition wait_for_response :: "string \<Rightarrow> world \<Rightarrow> (exn + string \<times> string) \<times> world" where
  "wait_for_response ser w =
     (case wait_loop (verbose w) (clock w) (clock w) (rx (ports w ser)) (stdout w) of
        (r, now1, rxs1, out1) \<Rightarrow>
          (r, w\<lparr>clock := now1, stdout := out1,
                ports := (ports w)(ser := (ports w ser)\<lparr>rx := rxs1\<rparr>)\<rparr>))"

text \<open>One turn of the loop, by what the next read returns.\<close>

lemma wait_loop_silent_step:
  "wait_loop verb timeout now [] out =
     (if timeout + 5 < now + 1
      then (Inr (''ERROR'', ''Timeout''), now + 1, [], out @ [Print '' --  Timeout''])
      else wait_loop verb timeout (now + 1) [] out)"
  by (subst wait_loop.simps) (simp add: read_filterd_bytes_def)

lemma wait_loop_fail_step:
  "wait_loop verb timeout now (RxFail # rest) out = (Inl SerialException, now, rest, out)"
  by (subst wait_loop.simps) simp

lemma wait_loop_empty_step:
  "read_filterd_bytes bs = None \<Longrightarrow>
   wait_loop verb timeout now (Rx dt bs # rest) out =
     (if timeout + 5 < now + dt
      then (Inr (''ERROR'', ''Timeout''), now + dt, rest, out @ [Print '' --  Timeout''])
      else wait_loop verb timeout (now + dt) rest out)"
  by (subst wait_loop.simps) simp

lemma wait_loop_line_step:
  "read_filterd_bytes bs = Some res \<Longrightarrow>
   wait_loop verb timeout now (Rx dt bs # rest) out =
     (if str_in ''OK:'' res then
        (Inr (''OK'', strip (drop 3 (slice_from (rfind res ''OK:'') res))), now + dt, rest,
         write_feedback verb (slice_from (rfind res ''OK:'') res) out)
      else if str_in ''WARN:'' res then
        (Inr (''WARN'', strip (drop 5 (slice_from (rfind res ''WARN:'') res))), now + dt, rest,
         write_feedback verb (slice_from (rfind res ''WARN:'') res) out)
      else if str_in ''ERROR:'' res then
        (Inr (''ERROR'', strip (drop 6 (slice_from (rfind res ''ERROR:'') res))), now + dt, rest,
         write_feedback verb (slice_from (rfind res ''ERROR:'') res) out)
      else if str_in ''DATA:'' res then
        (Inr (''DATA'', strip (drop 5 (slice_from (rfind res ''DATA:'') res))), now + dt, rest,
         write_feedback verb (slice_from (rfind res ''DATA:'') res) out)
      else wait_loop verb (now + dt) (now + dt) rest
             (if str_in ''INFO:'' res
              then write_feedback verb (slice_from (rfind res ''INFO:'') res) out
              else out))"
  by (subst wait_loop.simps) (simp add: Let_def)

text \<open>
  The loop never puts results back, a silent device ends it with the timeout, and a
  result other than the timeout has used up at least one read.
\<close>

lemma wait_loop_consumes:
  "wait_loop verb timeout now rxs out = (r, now', rxs', out') \<Longrightarrow>
   length rxs' \<le> length rxs \<and>
   (r \<noteq> Inr (''ERROR'', ''Timeout'') \<longrightarrow> length rxs' < length rxs)"
proof (induction verb timeout now rxs out rule: wait_loop.induct)
  case (1 verb timeout now rxs out)
  show ?case
  proof (cases rxs)
    case Nil
    show ?thesis
    proof (cases "timeout + 5 < now + 1")
      case True
      with "1.prems" Nil show ?thesis by (simp add: wait_loop_silent_step)
    next
      case False
      with "1.prems" Nil have "wait_loop verb timeout (now + 1) [] out = (r, now', rxs', out')"
        by (simp add: wait_loop_silent_step)
      moreover have "read_filterd_bytes [] = None" by (simp add: read_filterd_bytes_def)
      ultimately have "length rxs' \<le> length ([] :: rx_event list) \<and>
          (r \<noteq> Inr (''ERROR'', ''Timeout'') \<longrightarrow> length rxs' < length ([] :: rx_event list))"
        using "1.IH"(1)[of "Inr []" "(now + 1, [])" "[]" "now + 1" "[]"] Nil False by simp
      with Nil show ?thesis by simp
    qed
  next
    case (Cons e rest)
    show ?thesis
    proof (cases e)
      case RxFail
      with "1.prems" Cons show ?thesis by (simp add: wait_loop_fail_step)
    next
      case (Rx dt bs)
      show ?thesis
      proof (cases "read_filterd_bytes bs")
        case None
        show ?thesis
        proof (cases "timeout + 5 < now + dt")
          case True
          with "1.prems" Cons Rx None show ?thesis by (simp add: wait_loop_empty_step)
        next
          case False
          with "1.prems" Cons Rx None
          have "wait_loop verb timeout (now + dt) rest out = (r, now', rxs', out')"
            by (simp add: wait_loop_empty_step)
          then have "length rxs' \<le> length rest \<and>
              (r \<noteq> Inr (''ERROR'', ''Timeout'') \<longrightarrow> length rxs' < length rest)"
            using "1.IH"(1)[of "Inr bs" "(now + dt, rest)" bs "now + dt" rest] Cons Rx None False
            by simp
          with Cons show ?thesis by auto
        qed
      next
        case (Some res)
        show ?thesis
        proof (cases "str_in ''OK:'' res \<or> str_in ''WARN:'' res \<or> str_in ''ERROR:'' res
                        \<or> str_in ''DATA:'' res")
          case True
          with "1.prems" Cons Rx Some show ?thesis
            by (auto simp: wait_loop_line_step split: if_splits)
        next
          case False
          define out1 where "out1 = (if str_in ''INFO:'' res
              then write_feedback verb (slice_from (rfind res ''INFO:'') res) out else out)"
          from False "1.prems" Cons Rx Some
          have "wait_loop verb (now + dt) (now + dt) rest out1 = (r, now', rxs', out')"
            by (simp add: wait_loop_line_step out1_def)
          then have "length rxs' \<le> length rest \<and>
              (r \<noteq> Inr (''ERROR'', ''Timeout'') \<longrightarrow> length rxs' < length rest)"
            using "1.IH"(2)[of "Inr bs" "(now + dt, rest)" bs "now + dt" rest res out1 "now + dt"]
              Cons Rx Some False
            by (simp add: out1_def)
          with Cons show ?thesis by auto
        qed
      qed
    qed
  qed
qed

lemma wait_for_response_consumes:
  assumes "wait_for_response ser w = (r, w')"
  shows "length (rx (ports w' ser)) \<le> length (rx (ports w ser))"
    and "r \<noteq> Inr (''ERROR'', ''Timeout'') \<Longrightarrow> length (rx (ports w' ser)) < length (rx (ports w ser))"
proof -
  obtain r0 now1 rxs1 out1 where
    wl: "wait_loop (verbose w) (clock w) (clock w) (rx (ports w ser)) (stdout w) = (r0, now1, rxs1, out1)"
    by (cases "wait_loop (verbose w) (clock w) (clock w) (rx (ports w ser)) (stdout w)") auto
  with assms have r: "r = r0" and w': "rx (ports w' ser) = rxs1"
    by (auto simp: wait_for_response_def)
  from wait_loop_consumes[OF wl] r w'
  show "length (rx (ports w' ser)) \<le> length (rx (ports w ser))"
    and "r \<noteq> Inr (''ERROR'', ''Timeout'') \<Longrightarrow> length (rx (ports w' ser)) < length (rx (ports w ser))"
    by auto
qed

subsection \<open>Port discovery and the handshake\<close>

definition check_port :: "string \<Rightarrow> string \<Rightarrow> world \<Rightarrow> string option \<times> world" where
  "check_port port data w =
     (let w1 = (if verbose w then py_print (''Check port: '' @ port) w else w)
      in case serial_open port w1 of
           Inl e \<Rightarrow> (None, w1)
         | Inr w2 \<Rightarrow>
             (case wait_for_response port (ser_write port data (sleep 2 w2)) of
                (Inl e, w3) \<Rightarrow> (None, w3)
              | (Inr (res, msg), w3) \<Rightarrow>
                  if res = ''OK'' then (Some port, w3) else (None, py_print msg w3)))"

text \<open>
  The loop of \<open>find_comports\<close> over the ports the system lists, each with its device
  name and its manufacturer (which the system may not know: \<open>None\<close>).
\<close>

fun comports_loop :: "(string \<times> string option) list \<Rightarrow> string list \<Rightarrow> exn + string list" where
  "comports_loop [] ports_acc = Inr ports_acc"
| "comports_loop ((device, manufacturer) # rest) ports_acc =
     (case manufacturer of
        None \<Rightarrow> Inl TypeError
      | Some m \<Rightarrow>
          if (str_in ''Arduino'' m \<or> str_in ''FTDI'' m) \<and> device \<notin> set ports_acc
          then comports_loop rest (ports_acc @ [device])
          else comports_loop rest ports_acc)"

definition find_comports :: "world \<Rightarrow> exn + string list" where
  "find_comports w =
     comports_loop (comports w) (case config w ''port'' of None \<Rightarrow> [] | Some p \<Rightarrow> [p])"

text \<open>The loop of \<open>find_programmer\<close> over the candidate ports.\<close>

fun try_ports :: "string list \<Rightarrow> string \<Rightarrow> world \<Rightarrow> string option \<times> world" where
  "try_ports [] data w = (None, w)"
| "try_ports (port # rest) data w =
     (case check_port port data w of
        (Some serial_port, w1) \<Rightarrow>
          (Some serial_port, save_config (w1\<lparr>config := (config w1)(''port'' \<mapsto> port)\<rparr>))
      | (None, w1) \<Rightarrow> try_ports rest data w1)"

definition find_programmer :: "string \<Rightarrow> world \<Rightarrow> (exn + string option) \<times> world" where
  "find_programmer data w =
     (let w1 = (if verbose w then py_print data (py_print ''Config data:'' w) else w)
      in case find_comports w1 of
           Inl e \<Rightarrow> (Inl e, w1)
         | Inr candidates \<Rightarrow>
             (case try_ports candidates data w1 of (r, w2) \<Rightarrow> (Inr r, w2)))"

subsection \<open>Session operations\<close>

text \<open>
  The JSON text of the command envelope (\<open>json.dumps\<close> of a dictionary that always
  holds the state code) is the parameter \<open>data\<close> of each operation.
\<close>

definition STATE_READ_VPE :: int where "STATE_READ_VPE = 10"
definition STATE_READ_VPP :: int where "STATE_READ_VPP = 11"
definition STATE_READ_VCC :: int where "STATE_READ_VCC = 12"

function voltage_loop :: "string \<Rightarrow> world \<Rightarrow> (exn + unit) \<times> world" where
  "voltage_loop ser w =
     (case wait_for_response ser w of
        (Inl e, w1) \<Rightarrow> (Inl e, w1)
      | (Inr (kind, msg), w1) \<Rightarrow>
          if kind = ''DATA''
          then voltage_loop ser (ser_write ser ''OK'' (print_raw (CHR 0x0D # msg) w1))
          else (Inr (), w1))"
  by pat_completeness auto
termination
proof (relation "measure (\<lambda>(ser, w). length (rx (ports w ser)))", goal_cases)
  case 1
  show ?case by simp
next
  case (2 ser w x w1 r kind msg)
  then have "wait_for_response ser w = (Inr (''DATA'', msg), w1)" by simp
  from wait_for_response_consumes(2)[OF this] show ?case
    by (simp add: ser_write_def print_raw_def)
qed

declare voltage_loop.simps [simp del]

definition read_voltage :: "string \<Rightarrow> int \<Rightarrow> world \<Rightarrow> (exn + unit) \<times> world" where
  "read_voltage data state w =
     (case find_programmer data w of
        (Inl e, w1) \<Rightarrow> (Inl e, w1)
      | (Inr None, w1) \<Rightarrow> (Inr (), py_print ''No programmer found'' w1)
      | (Inr (Some ser), w1) \<Rightarrow>
          (let w2 = ser_write ser ''OK'' w1;
               type0 = ''VPE'';
               type1 = (if state = STATE_READ_VCC then ''VCC'' else type0);
               type2 = (if state = STATE_READ_VPP then ''VPP'' else type1)
           in voltage_loop ser (py_print (''Reading '' @ type2 @ '' voltage'') w2)))"

text \<open>\<open>int(a) < int(b)\<close>, and the condition of \<open>firmware_check\<close>, whose \<open>or\<close> stops at
  the first comparison that holds.\<close>

definition int_less :: "string \<Rightarrow> string \<Rightarrow> exn + bool" where
  "int_less a b =
     (case py_int a of
        Inl e \<Rightarrow> Inl e
      | Inr x \<Rightarrow> (case py_int b of Inl e \<Rightarrow> Inl e | Inr y \<Rightarrow> Inr (x < y)))"

definition version_older :: "string \<Rightarrow> string option \<Rightarrow> exn + bool" where
  "version_older version latest_version =
     (case split_on CHR ''.'' version of
        [major, minor, patch] \<Rightarrow>
          (case latest_version of
             None \<Rightarrow> Inl AttributeError
           | Some lv \<Rightarrow>
               (case split_on CHR ''.'' lv of
                  [major_l, minor_l, patch_l] \<Rightarrow>
                    (case int_less major major_l of
                       Inl e \<Rightarrow> Inl e
                     | Inr True \<Rightarrow> Inr True
                     | Inr False \<Rightarrow>
                         (case int_less minor minor_l of
                            Inl e \<Rightarrow> Inl e
                          | Inr True \<Rightarrow> Inr True
                          | Inr False \<Rightarrow> int_less patch patch_l))
                | _ \<Rightarrow> Inl ValueError))
      | _ \<Rightarrow> Inl ValueError)"

text \<open>
  \<open>latest\<close> is what \<open>latest_firmware()\<close> returns from the release feed: the latest
  version and the download address, each possibly \<open>None\<close>.
\<close>

definition firmware_check ::
  "string option \<times> string option \<Rightarrow> string \<Rightarrow> world \<Rightarrow>
     (exn + bool \<times> string option \<times> string option) \<times> world" where
  "firmware_check latest data w =
     (case find_programmer data w of
        (Inl e, w1) \<Rightarrow> (Inl e, w1)
      | (Inr None, w1) \<Rightarrow> (Inr (False, None, None), py_print ''No programmer found'' w1)
      | (Inr (Some ser), w1) \<Rightarrow>
          (case wait_for_response ser (py_print ''Reading version'' (ser_write ser ''OK'' w1)) of
             (Inl e, w2) \<Rightarrow> (Inl e, w2)
           | (Inr (r, version), w2) \<Rightarrow>
               (let w3 = ser_close ser w2
                in if r = ''OK'' then
                     (let w4 = py_print (''Firmware version: '' @ version) w3
                      in case latest of
                           (latest_version, url) \<Rightarrow>
                             (case version_older version latest_version of
                                Inl e \<Rightarrow> (Inl e, w4)
                              | Inr True \<Rightarrow>
                                  (Inr (False, Some ser, url),
                                   py_print (''New version available: '' @
                                     (case latest_version of None \<Rightarrow> ''None'' | Some lv \<Rightarrow> lv)) w4)
                              | Inr False \<Rightarrow>
                                  (Inr (True, None, None),
                                   py_print ''You have the latest version'' w4)))
                   else (Inr (False, None, None), py_print r w3))))"

definition rurp_config :: "string \<Rightarrow> world \<Rightarrow> (exn + unit) \<times> world" where
  "rurp_config data w =
     (case find_programmer data w of
        (Inl e, w1) \<Rightarrow> (Inl e, w1)
      | (Inr None, w1) \<Rightarrow> (Inr (), py_print ''No programmer found'' w1)
      | (Inr (Some ser), w1) \<Rightarrow>
          (case wait_for_response ser
                  (py_print ''Reading configuration'' (ser_write ser (''OK'' @ [CHR 0x0A]) w1)) of
             (Inl e, w2) \<Rightarrow> (Inl e, w2)
           | (Inr (r, version), w2) \<Rightarrow>
               (Inr (), if r = ''OK'' then py_print (''Config: '' @ version) w2 else py_print r w2)))"

subsection \<open>Bulk transfer\<close>

text \<open>
  \<open>entry\<close> is what the chip database returns for the name \<open>eprom\<close> (\<open>None\<close> for an
  unknown chip), \<open>data\<close> the JSON text of the envelope built from it.
\<close>

lemma readline_consumes:
  "readline now rxs = (r, now1, rxs1) \<Longrightarrow> length rxs1 \<le> length rxs"
  by (cases "(now, rxs)" rule: readline.cases) auto

lemma ser_read_consumes:
  "ser_read n ser w = (r, w') \<Longrightarrow> length (rx (ports w' ser)) \<le> length (rx (ports w ser))"
  by (auto simp: ser_read_def split: prod.splits dest: readline_consumes)

function read_loop :: "string \<Rightarrow> string \<Rightarrow> int \<Rightarrow> int \<Rightarrow> world \<Rightarrow> loop_exit \<times> world" where
  "read_loop ser output_file mem_size bytes_read w =
     (case wait_for_response ser w of
        (Inl e, w1) \<Rightarrow> (Raised e, w1)
      | (Inr (kind, msg), w1) \<Rightarrow>
          if kind = ''DATA'' then
            (case ser_read 256 ser w1 of
               (Inl e, w2) \<Rightarrow> (Raised e, w2)
             | (Inr serial_data, w2) \<Rightarrow>
                 (let w3 = file_write output_file serial_data w2;
                      bytes_read1 = bytes_read + 256
                  in case percent bytes_read1 mem_size of
                       Inl e \<Rightarrow> (Raised e, w3)
                     | Inr p \<Rightarrow>
                         read_loop ser output_file mem_size bytes_read1
                           (ser_write ser (''OK'' @ [CHR 0x0A])
                              (print_progress p (bytes_read1 - 256) bytes_read1 w3))))
          else if kind = ''OK'' then
            (Broke, py_print ''Finished reading data'' (py_print [] w1))
          else
            (case wait_for_response ser (py_print (''Error reading data '' @ msg) w1) of
               (Inl e, w2) \<Rightarrow> (Raised e, w2)
             | (Inr (kind2, msg2), w2) \<Rightarrow> (Returned, py_print msg2 w2)))"
  by pat_completeness auto
termination
proof (relation "measure (\<lambda>(ser, f, m, b, w). length (rx (ports w ser)))", goal_cases)
  case 1
  show ?case by simp
next
  case (2 ser output_file mem_size bytes_read w x w1 r kind msg y w2 serial_data w3 bytes_read1 p)
  then have "wait_for_response ser w = (Inr (''DATA'', msg), w1)" by simp
  from wait_for_response_consumes(2)[OF this]
  have a: "length (rx (ports w1 ser)) < length (rx (ports w ser))" by simp
  from 2 have "ser_read 256 ser w1 = (Inr serial_data, w2)" by simp
  then have "length (rx (ports w2 ser)) \<le> length (rx (ports w1 ser))"
    by (rule ser_read_consumes)
  with a 2 show ?case
    by (simp add: ser_write_def print_progress_def file_write_def)
qed

declare read_loop.simps [simp del]

definition read_chip ::
  "string \<Rightarrow> eprom option \<Rightarrow> string \<Rightarrow> string option \<Rightarrow> world \<Rightarrow> (exn + unit) \<times> world" where
  "read_chip eprom entry data output_file w =
     (case entry of
        None \<Rightarrow> (Inr (), py_print (''Eprom '' @ eprom @ '' not found.'') w)
      | Some d \<Rightarrow>
          (case find_programmer data w of
             (Inl e, w1) \<Rightarrow> (Inl e, w1)
           | (Inr None, w1) \<Rightarrow> (Inr (), py_print ''No programmer found'' w1)
           | (Inr (Some ser), w1) \<Rightarrow>
               (let w2 = py_print (''Reading chip: '' @ name d) w1;
                    out_name = (case output_file of
                                  None \<Rightarrow> name d @ ''.bin''
                                | Some f \<Rightarrow> if f = [] then name d @ ''.bin'' else f);
                    w3 = py_print (''Output will be saved to: '' @ out_name) w2;
                    w4 = file_open_wb out_name (ser_write ser ''OK'' w3);
                    start_time = clock w4;
                    w7 = (case read_loop ser out_name (memory_size d) 0 w4 of
                            (Broke, w5) \<Rightarrow>
                              w5\<lparr>stdout := stdout w5 @ [Elapsed ''File recived'' (clock w5 - start_time)]\<rparr>
                          | (Returned, w5) \<Rightarrow> w5
                          | (Raised e, w5) \<Rightarrow> w5\<lparr>stdout := stdout w5 @ [PrintExn e]\<rparr>)
                in (Inr (), ser_close ser (file_close out_name w7)))))"

text \<open>\<open>f\<close> is what is left to read of the input file.\<close>

function write_loop ::
  "string \<Rightarrow> int \<Rightarrow> int \<Rightarrow> byte list \<Rightarrow> int \<Rightarrow> world \<Rightarrow> loop_exit \<times> world" where
  "write_loop ser mem_size file_size f bytes_sent w =
     (let data = take 256 f
      in if data = [] then
           (case wait_for_response ser (ser_write ser (to_bytes2 0) w) of
              (Inl e, w1) \<Rightarrow> (Raised e, w1)
            | (Inr (resp, info), w1) \<Rightarrow>
                (Returned, py_print info (py_print ''End of file reached'' w1)))
         else
           (case wait_for_response ser
                   (ser_write ser data (ser_write ser (to_bytes2 (length data)) w)) of
              (Inl e, w1) \<Rightarrow> (Raised e, w1)
            | (Inr (resp, info), w1) \<Rightarrow>
                if resp = ''OK'' then
                  (let bytes_sent1 = bytes_sent + int (length data)
                   in case percent bytes_sent1 file_size of
                        Inl e \<Rightarrow> (Raised e, w1)
                      | Inr p \<Rightarrow>
                          (let w2 = print_progress p (bytes_sent1 - 256) bytes_sent1 w1
                           in if bytes_sent1 = mem_size then (Broke, w2)
                              else write_loop ser mem_size file_size (drop 256 f) bytes_sent1 w2))
                else if resp = ''ERROR'' then
                  (Returned, py_print (''Error writing: '' @ info) (py_print [] w1))
                else if bytes_sent = mem_size then (Broke, w1)
                else write_loop ser mem_size file_size (drop 256 f) bytes_sent w1))"
  by pat_completeness auto
termination
  by (relation "measure (\<lambda>(ser, m, s, f, b, w). length f)") auto

declare write_loop.simps [simp del]

text \<open>\<open>address\<close> is the optional start address as typed on the command line.\<close>

definition parse_address :: "string option \<Rightarrow> exn + int option" where
  "parse_address address =
     (case address of
        None \<Rightarrow> Inr None
      | Some a \<Rightarrow>
          if a = [] then Inr None
          else map_sum id Some (if str_in ''0x'' a then py_int16 a else py_int a))"

definition write_chip ::
  "string \<Rightarrow> eprom option \<Rightarrow> string \<Rightarrow> string \<Rightarrow> string option \<Rightarrow> world \<Rightarrow>
     (exn + unit) \<times> world" where
  "write_chip eprom entry json_data input_file address w =
     (case entry of
        None \<Rightarrow> (Inr (), py_print (''Eprom '' @ eprom @ '' not found.'') w)
      | Some d \<Rightarrow>
          (case files w input_file of
             None \<Rightarrow> (Inr (), py_print (''File '' @ input_file @ '' not found.'') w)
           | Some content \<Rightarrow>
               (case parse_address address of
                  Inl e \<Rightarrow> (Inl e, w)
                | Inr a \<Rightarrow>
                    (let file_size = int (length content);
                         mem_size = memory_size d;
                         w1 = (if mem_size \<noteq> file_size
                               then py_print ''The file size dont match the memory size'' w
                               else w);
                         start_time = clock w1
                     in case find_programmer json_data w1 of
                          (Inl e, w2) \<Rightarrow> (Inl e, w2)
                        | (Inr None, w2) \<Rightarrow> (Inr (), py_print ''No programmer found'' w2)
                        | (Inr (Some ser), w2) \<Rightarrow>
                            (let w3 = py_print (''Writing to chip: '' @ name d) w2;
                                 w4 = py_print (''Reading from input file: '' @ input_file) w3;
                                 w5 = py_print (''Sending file '' @ input_file @
                                                 '' in blocks of 256 bytes'') w4
                             in case write_loop ser mem_size file_size content 0 w5 of
                                  (Broke, w6) \<Rightarrow>
                                    (Inr (),
                                     (py_print [] w6)\<lparr>stdout := stdout (py_print [] w6) @
                                        [Elapsed ''File sent successfully'' (clock w6 - start_time)]\<rparr>)
                                | (Returned, w6) \<Rightarrow> (Inr (), w6)
                                | (Raised e, w6) \<Rightarrow> (Inl e, w6))))))"

section \<open>Notions used to state the properties\<close>

text \<open>
  What the chain of tests in \<open>wait_for_response\<close> makes of a filtered line that ends the
  wait: the kind, the message, and the text handed to \<open>write_feedback\<close>; \<open>None\<close> for a
  line that holds none of the four tags that end the wait.
\<close>

definition parse_line :: "string \<Rightarrow> (string \<times> string \<times> string) option" where
  "parse_line res =
     (if str_in ''OK:'' res then
        (let msg = slice_from (rfind res ''OK:'') res in Some (''OK'', strip (drop 3 msg), msg))
      else if str_in ''WARN:'' res then
        (let msg = slice_from (rfind res ''WARN:'') res in Some (''WARN'', strip (drop 5 msg), msg))
      else if str_in ''ERROR:'' res then
        (let msg = slice_from (rfind res ''ERROR:'') res in Some (''ERROR'', strip (drop 6 msg), msg))
      else if str_in ''DATA:'' res then
        (let msg = slice_from (rfind res ''DATA:'') res in Some (''DATA'', strip (drop 5 msg), msg))
      else None)"

text \<open>The time a read takes, a read without a printable character, and a line with
  printable characters but none of the five tags.\<close>

fun duration :: "rx_event \<Rightarrow> rat" where
  "duration (Rx dt bs) = dt"
| "duration RxFail = 0"


fun untagged :: "rx_event \<Rightarrow> bool" where
  "untagged (Rx dt bs) =
     (case read_filterd_bytes bs of
        None \<Rightarrow> False
      | Some res \<Rightarrow> \<not> str_in ''OK:'' res \<and> \<not> str_in ''WARN:'' res \<and> \<not> str_in ''ERROR:'' res
                    \<and> \<not> str_in ''DATA:'' res \<and> \<not> str_in ''INFO:'' res)"
| "untagged RxFail = False"

text \<open>What a device answers to the handshake when its first line already ends the wait.\<close>

definition first_reply :: "serial \<Rightarrow> (string \<times> string \<times> string) option" where
  "first_reply d =
     (case rx d of
        Rx dt bs # rest \<Rightarrow> (case read_filterd_bytes bs of None \<Rightarrow> None | Some res \<Rightarrow> parse_line res)
      | _ \<Rightarrow> None)"

text \<open>
  The input file cut into blocks of 256 bytes (the last one shorter), the chunks written
  to the port for a list of blocks (a two-byte length, then the block), and a line with
  the tag \<open>OK:\<close>.
\<close>

function blocks_of :: "byte list \<Rightarrow> byte list list" where
  "blocks_of f = (if f = [] then [] else take 256 f # blocks_of (drop 256 f))"
  by pat_completeness auto
termination
  by (relation "measure length") auto

declare blocks_of.simps [simp del]





fun progress_of :: "out_event list \<Rightarrow> int list" where
  "progress_of [] = []"
| "progress_of (Progress v p a b # es) = p # progress_of es"
| "progress_of (e # es) = progress_of es"



subsection \<open>Example scenarios\<close>

text \<open>A port that cannot be opened, a device with a script, a quiet machine with the
  given system port list and devices, and a machine with one device on \<open>COM1\<close>.\<close>

definition port0 :: serial where
  "port0 = \<lparr>openable = False, rx = [], tx = [], is_open = False\<rparr>"

definition device :: "rx_event list \<Rightarrow> serial" where
  "device script = \<lparr>openable = True, rx = script, tx = [], is_open = False\<rparr>"

definition lab :: "(string \<times> string option) list \<Rightarrow> (string \<Rightarrow> serial) \<Rightarrow> world" where
  "lab listed devs =
     \<lparr>verbose = False, clock = 0, stdout = [], config = Map.empty, config_file = None,
      comports = listed, ports = devs, files = Map.empty, open_files = {}\<rparr>"

definition one_port :: "rx_event list \<Rightarrow> world" where
  "one_port script = lab [] ((\<lambda>p. port0)(''COM1'' := device script))"

text \<open>Six lines without a tag, one second apart.\<close>

definition chatter :: "rx_event list" where
  "chatter = replicate 6 (Rx 1 (''hello'' @ [CHR 0x0A]))"


text \<open>A machine with one programmer on \<open>COM1\<close>, lines as the firmware sends them, and a
  machine with two listed ports of which the first refuses the handshake.\<close>

definition bench :: "rx_event list \<Rightarrow> world" where
  "bench script =
     lab [(''COM1'', Some ''Arduino (www.arduino.cc)'')] ((\<lambda>p. port0)(''COM1'' := device script))"

definition ok_line :: "string \<Rightarrow> rx_event" where
  "ok_line m = Rx (1 / 10) (''OK: '' @ m @ [CHR 0x0D, CHR 0x0A])"

definition data_line :: "string \<Rightarrow> rx_event" where
  "data_line m = Rx (1 / 10) (''DATA: '' @ m @ [CHR 0x0D, CHR 0x0A])"


text \<open>A 2716 (2048 bytes), and a machine with the given content in \<open>image.bin\<close>.\<close>

definition chip_2716 :: eprom where
  "chip_2716 = \<lparr>name = ''2716'', memory_size = 2048\<rparr>"

definition with_image :: "byte list \<Rightarrow> world \<Rightarrow> world" where
  "with_image content w = w\<lparr>files := (files w)(''image.bin'' \<mapsto> content)\<rparr>"




section \<open>Auxiliary facts\<close>

subsection \<open>Substrings and the last occurrence\<close>







subsection \<open>The wait loop\<close>

lemma wait_loop_tagged:
  assumes "read_filterd_bytes bs = Some res" and "parse_line res = Some (k, m, fb)"
  shows "wait_loop verb timeout now (Rx dt bs # rest) out =
           (Inr (k, m), now + dt, rest, write_feedback verb fb out)"
  using assms(2) unfolding wait_loop_line_step[OF assms(1)] parse_line_def
  by (auto simp: Let_def split: if_splits)

lemma wait_loop_untagged:
  assumes "read_filterd_bytes bs = Some res" and "parse_line res = None"
  shows "wait_loop verb timeout now (Rx dt bs # rest) out =
           wait_loop verb (now + dt) (now + dt) rest
             (if str_in ''INFO:'' res
              then write_feedback verb (slice_from (rfind res ''INFO:'') res) out
              else out)"
  using assms(2) unfolding wait_loop_line_step[OF assms(1)] parse_line_def
  by (auto simp: Let_def split: if_splits)

lemma wait_loop_induct2 [consumes 0, case_names silent_timeout silent_continue fail
    empty_timeout empty_continue tagged untagged]:
  assumes "\<And>verb timeout now out. timeout + 5 < now + 1 \<Longrightarrow> P verb timeout now [] out"
    and "\<And>verb timeout now out. \<not> timeout + 5 < now + 1 \<Longrightarrow> P verb timeout (now + 1) [] out
           \<Longrightarrow> P verb timeout now [] out"
    and "\<And>verb timeout now rest out. P verb timeout now (RxFail # rest) out"
    and "\<And>verb timeout now dt bs rest out. read_filterd_bytes bs = None \<Longrightarrow>
           timeout + 5 < now + dt \<Longrightarrow> P verb timeout now (Rx dt bs # rest) out"
    and "\<And>verb timeout now dt bs rest out. read_filterd_bytes bs = None \<Longrightarrow>
           \<not> timeout + 5 < now + dt \<Longrightarrow> P verb timeout (now + dt) rest out \<Longrightarrow>
           P verb timeout now (Rx dt bs # rest) out"
    and "\<And>verb timeout now dt bs rest out res k m fb. read_filterd_bytes bs = Some res \<Longrightarrow>
           parse_line res = Some (k, m, fb) \<Longrightarrow> P verb timeout now (Rx dt bs # rest) out"
    and "\<And>verb timeout now dt bs rest out res. read_filterd_bytes bs = Some res \<Longrightarrow>
           parse_line res = None \<Longrightarrow>
           P verb (now + dt) (now + dt) rest
             (if str_in ''INFO:'' res
              then write_feedback verb (slice_from (rfind res ''INFO:'') res) out
              else out) \<Longrightarrow>
           P verb timeout now (Rx dt bs # rest) out"
  shows "P verb timeout now rxs out"
proof (induction verb timeout now rxs out rule: wait_loop.induct)
  case (1 verb timeout now rxs out)
  show ?case
  proof (cases rxs)
    case Nil
    have e: "read_filterd_bytes [] = None" by (simp add: read_filterd_bytes_def)
    show ?thesis
    proof (cases "timeout + 5 < now + 1")
      case True
      with Nil assms(1) show ?thesis by simp
    next
      case False
      have "P verb timeout (now + 1) [] out"
        using "1.IH"(1)[of "Inr []" "(now + 1, [])" "[]" "now + 1" "[]"] Nil False e by simp
      with False Nil assms(2) show ?thesis by simp
    qed
  next
    case (Cons ev rest)
    show ?thesis
    proof (cases ev)
      case RxFail
      with Cons assms(3) show ?thesis by simp
    next
      case (Rx dt bs)
      show ?thesis
      proof (cases "read_filterd_bytes bs")
        case None
        show ?thesis
        proof (cases "timeout + 5 < now + dt")
          case True
          with None Cons Rx assms(4) show ?thesis by simp
        next
          case False
          have "P verb timeout (now + dt) rest out"
            using "1.IH"(1)[of "Inr bs" "(now + dt, rest)" bs "now + dt" rest] Cons Rx None False
            by simp
          with None False Cons Rx assms(5) show ?thesis by simp
        qed
      next
        case (Some res)
        show ?thesis
        proof (cases "parse_line res")
          case None
          define out1 where "out1 = (if str_in ''INFO:'' res
              then write_feedback verb (slice_from (rfind res ''INFO:'') res) out else out)"
          from None have no: "\<not> str_in ''OK:'' res" "\<not> str_in ''WARN:'' res"
            "\<not> str_in ''ERROR:'' res" "\<not> str_in ''DATA:'' res"
            by (auto simp: parse_line_def Let_def split: if_splits)
          have "P verb (now + dt) (now + dt) rest out1"
            using "1.IH"(2)[of "Inr bs" "(now + dt, rest)" bs "now + dt" rest res out1 "now + dt"]
              Cons Rx Some no
            by (simp add: out1_def)
          with Some None Cons Rx assms(7)[of bs res verb now dt rest out] show ?thesis
            by (simp add: out1_def)
        next
          case (Some a)
          then obtain k m fb where "parse_line res = Some (k, m, fb)" by (cases a) auto
          with \<open>read_filterd_bytes bs = Some res\<close> Cons Rx assms(6) show ?thesis by simp
        qed
      qed
    qed
  qed
qed

lemma parse_line_kind:
  "parse_line res = Some (k, m, fb) \<Longrightarrow> k \<in> {''OK'', ''WARN'', ''ERROR'', ''DATA''}"
  by (auto simp: parse_line_def Let_def split: if_splits)

lemma wait_loop_kinds:
  "wait_loop verb timeout now rxs out = (Inr (k, m), now', rxs', out') \<Longrightarrow>
   k \<in> {''OK'', ''WARN'', ''ERROR'', ''DATA''}"
proof (induction verb timeout now rxs out rule: wait_loop_induct2)
  case (silent_timeout verb timeout now out)
  then show ?case by (simp add: wait_loop_silent_step)
next
  case (silent_continue verb timeout now out)
  then show ?case by (simp add: wait_loop_silent_step)
next
  case (fail verb timeout now rest out)
  then show ?case by (simp add: wait_loop_fail_step)
next
  case (empty_timeout verb timeout now dt bs rest out)
  then show ?case by (simp add: wait_loop_empty_step)
next
  case (empty_continue verb timeout now dt bs rest out)
  then show ?case by (simp add: wait_loop_empty_step)
next
  case (tagged verb timeout now dt bs rest out res k' m' fb)
  then show ?case using parse_line_kind[of res k' m' fb] by (simp add: wait_loop_tagged)
next
  case (untagged verb timeout now dt bs rest out res)
  then show ?case by (simp add: wait_loop_untagged)
qed

lemma wait_for_response_tagged:
  assumes "rx (ports w ser) = Rx dt bs # rest" and "read_filterd_bytes bs = Some res"
    and "parse_line res = Some (k, m, fb)"
  shows "wait_for_response ser w =
           (Inr (k, m),
            w\<lparr>clock := clock w + dt, stdout := write_feedback (verbose w) fb (stdout w),
              ports := (ports w)(ser := (ports w ser)\<lparr>rx := rest\<rparr>)\<rparr>)"
  by (simp add: wait_for_response_def assms(1) wait_loop_tagged[OF assms(2,3)])

lemma wait_for_response_untagged:
  assumes "rx (ports w ser) = Rx dt bs # rest" and "read_filterd_bytes bs = Some res"
    and "parse_line res = None"
  shows "wait_for_response ser w =
           wait_for_response ser
             (w\<lparr>clock := clock w + dt,
                stdout := (if str_in ''INFO:'' res
                           then write_feedback (verbose w) (slice_from (rfind res ''INFO:'') res)
                                  (stdout w)
                           else stdout w),
                ports := (ports w)(ser := (ports w ser)\<lparr>rx := rest\<rparr>)\<rparr>)"
  by (simp add: wait_for_response_def assms(1) wait_loop_untagged[OF assms(2,3)])




subsection \<open>Percentages\<close>

lemma percent_nonneg:
  "0 \<le> a \<Longrightarrow> 0 < b \<Longrightarrow> percent a b = Inr ((a * 100) div b)"
proof -
  assume a: "0 \<le> a" "0 < b"
  have "rat_of_int a / rat_of_int b * 100 = rat_of_int (a * 100) / rat_of_int b" by simp
  then have "\<lfloor>rat_of_int a / rat_of_int b * 100\<rfloor> = (a * 100) div b"
    by (simp only: floor_divide_of_int_eq)
  moreover have "0 \<le> rat_of_int a / rat_of_int b * 100" using a by simp
  ultimately show ?thesis using a by (simp add: percent_def py_trunc_def)
qed



subsection \<open>Running the program on a given script\<close>

text \<open>One turn of the loop on a read that returns bytes, and the equations that evaluate
  a run on a concrete machine.\<close>

lemma wait_loop_rx_unfold:
  "wait_loop verb timeout now (Rx dt bs # rest) out =
     (case read_filterd_bytes bs of
        None \<Rightarrow>
          if timeout + 5 < now + dt
          then (Inr (''ERROR'', ''Timeout''), now + dt, rest, out @ [Print '' --  Timeout''])
          else wait_loop verb timeout (now + dt) rest out
      | Some res \<Rightarrow>
          (case parse_line res of
             Some (k, m, fb) \<Rightarrow> (Inr (k, m), now + dt, rest, write_feedback verb fb out)
           | None \<Rightarrow>
               wait_loop verb (now + dt) (now + dt) rest
                 (if str_in ''INFO:'' res
                  then write_feedback verb (slice_from (rfind res ''INFO:'') res) out
                  else out)))"
  by (auto simp: wait_loop_empty_step wait_loop_tagged wait_loop_untagged split: option.splits)

lemmas run_simps = find_programmer_def find_comports_def lab_def device_def port0_def
  bench_def ok_line_def data_line_def with_image_def
  check_port_def serial_open_def sleep_def ser_write_def ser_close_def ser_read_def
  py_print_def print_raw_def print_progress_def file_open_wb_def file_write_def file_close_def
  save_config_def wait_for_response_def wait_loop_rx_unfold wait_loop_silent_step
  wait_loop_fail_step read_filterd_bytes_def
  parse_line_def rfind_def slice_from_def strip_def isspace_def write_feedback_def
  percent_nonneg to_bytes2_def Let_def

subsection \<open>The version comparison\<close>


subsection \<open>The handshake\<close>


lemma first_reply_write [simp]:
  "first_reply (ports (ser_write q data w) q) = first_reply (ports w q)"
  by (simp add: first_reply_def ser_write_def)






subsection \<open>Blocks and the write loop\<close>

lemma blocks_of_Nil [simp]: "blocks_of [] = []"
  by (simp add: blocks_of.simps)


lemma blocks_of_eq_Nil [simp]: "blocks_of f = [] \<longleftrightarrow> f = []"
  by (subst blocks_of.simps) simp










subsection \<open>The read loop\<close>

lemma progress_of_append: "progress_of (xs @ ys) = progress_of xs @ progress_of ys"
  by (induction xs rule: progress_of.induct) simp_all

lemma progress_of_feedback [simp]:
  "progress_of (write_feedback v fb out) = progress_of out"
  by (simp add: write_feedback_def progress_of_append)





section \<open>The claims\<close>

subsection \<open>The response parser and the wait loop\<close>



text \<open>
  Claim C10. A line that holds several of the tags is classified by the order in which the
  tags are tested, \<open>OK:\<close> before \<open>WARN:\<close> before \<open>ERROR:\<close> before \<open>DATA:\<close> (and \<open>INFO:\<close>
  last, since it is only looked at when none of these is there), not by the tag that
  comes last in the line.
\<close>

theorem tag_priority:
  assumes "rx (ports w ser) = Rx dt bs # rest"
    and "read_filterd_bytes bs = Some res"
    and "str_in ''OK:'' res \<or> str_in ''WARN:'' res \<or> str_in ''ERROR:'' res \<or> str_in ''DATA:'' res"
  shows "\<exists>m. fst (wait_for_response ser w) =
           Inr (if str_in ''OK:'' res then ''OK''
                else if str_in ''WARN:'' res then ''WARN''
                else if str_in ''ERROR:'' res then ''ERROR''
                else ''DATA'', m)"
proof -
  have "parse_line res \<noteq> None"
    using assms(3) by (auto simp: parse_line_def Let_def)
  then obtain a where "parse_line res = Some a" by auto
  then obtain k m fb where p: "parse_line res = Some (k, m, fb)" by (cases a) auto
  then have "k = (if str_in ''OK:'' res then ''OK''
                else if str_in ''WARN:'' res then ''WARN''
                else if str_in ''ERROR:'' res then ''ERROR''
                else ''DATA'')"
    by (auto simp: parse_line_def Let_def split: if_splits)
  with wait_for_response_tagged[OF assms(1,2) p] show ?thesis by simp
qed

theorem tag_priority_witness:
  "(\<exists>m. fst (wait_for_response ''COM1'' (one_port [Rx 1 (''OK: 1 DATA: 2'' @ [CHR 0x0A])])) =
           Inr (if str_in ''OK:'' ''OK: 1 DATA: 2'' then ''OK''
                else if str_in ''WARN:'' ''OK: 1 DATA: 2'' then ''WARN''
                else if str_in ''ERROR:'' ''OK: 1 DATA: 2'' then ''ERROR''
                else ''DATA'', m))
   \<and> str_in ''OK:'' ''OK: 1 DATA: 2''
   \<and> fst (wait_for_response ''COM1'' (one_port [Rx 1 (''OK: 1 DATA: 2'' @ [CHR 0x0A])])) =
       Inr (''OK'', ''1 DATA: 2'')
   \<and> fst (wait_for_response ''COM1'' (one_port [Rx 1 (''DATA: 1 OK: 2'' @ [CHR 0x0A])])) =
       Inr (''OK'', ''2'')"
proof -
  let ?bs = "''OK: 1 DATA: 2'' @ [CHR 0x0A]"
  have 1: "rx (ports (one_port [Rx 1 ?bs]) ''COM1'') = Rx 1 ?bs # []" by code_simp
  have 2: "read_filterd_bytes ?bs = Some ''OK: 1 DATA: 2''" by code_simp
  have 3: "str_in ''OK:'' ''OK: 1 DATA: 2'' \<or> str_in ''WARN:'' ''OK: 1 DATA: 2''
      \<or> str_in ''ERROR:'' ''OK: 1 DATA: 2'' \<or> str_in ''DATA:'' ''OK: 1 DATA: 2''" by simp
  note a = tag_priority[OF 1 2 3]
  have b: "str_in ''OK:'' ''OK: 1 DATA: 2''" by simp
  have c: "fst (wait_for_response ''COM1'' (one_port [Rx 1 (''OK: 1 DATA: 2'' @ [CHR 0x0A])])) =
       Inr (''OK'', ''1 DATA: 2'')" by code_simp
  have d: "fst (wait_for_response ''COM1'' (one_port [Rx 1 (''DATA: 1 OK: 2'' @ [CHR 0x0A])])) =
       Inr (''OK'', ''2'')" by code_simp
  from a b c d show ?thesis by (intro conjI)
qed

text \<open>
  Claim C9. A line recognized as \<open>INFO:\<close> does not end the wait: the loop goes on with
  the next read (the line handed to \<open>write_feedback\<close>, the window started afresh), and
  whenever the wait returns an event its kind is one of \<open>OK\<close>, \<open>WARN\<close>, \<open>ERROR\<close>, \<open>DATA\<close>
  (the timeout being returned under the kind \<open>ERROR\<close>).
\<close>

theorem info_line_continues:
  "(rx (ports w ser) = Rx dt bs # rest \<and> read_filterd_bytes bs = Some res \<and>
    str_in ''INFO:'' res \<and> \<not> str_in ''OK:'' res \<and> \<not> str_in ''WARN:'' res \<and>
    \<not> str_in ''ERROR:'' res \<and> \<not> str_in ''DATA:'' res \<longrightarrow>
    wait_for_response ser w =
      wait_for_response ser
        (w\<lparr>clock := clock w + dt,
           stdout := write_feedback (verbose w) (slice_from (rfind res ''INFO:'') res) (stdout w),
           ports := (ports w)(ser := (ports w ser)\<lparr>rx := rest\<rparr>)\<rparr>))
   \<and> (\<forall>k m. fst (wait_for_response ser w) = Inr (k, m) \<longrightarrow>
          k \<in> {''OK'', ''WARN'', ''ERROR'', ''DATA''})"
proof (intro conjI impI)
  assume a: "rx (ports w ser) = Rx dt bs # rest \<and> read_filterd_bytes bs = Some res \<and>
    str_in ''INFO:'' res \<and> \<not> str_in ''OK:'' res \<and> \<not> str_in ''WARN:'' res \<and>
    \<not> str_in ''ERROR:'' res \<and> \<not> str_in ''DATA:'' res"
  then have "parse_line res = None" by (simp add: parse_line_def)
  with a wait_for_response_untagged[of w ser dt bs rest res]
  show "wait_for_response ser w =
      wait_for_response ser
        (w\<lparr>clock := clock w + dt,
           stdout := write_feedback (verbose w) (slice_from (rfind res ''INFO:'') res) (stdout w),
           ports := (ports w)(ser := (ports w ser)\<lparr>rx := rest\<rparr>)\<rparr>)"
    by simp
next
  show "\<forall>k m. fst (wait_for_response ser w) = Inr (k, m) \<longrightarrow>
          k \<in> {''OK'', ''WARN'', ''ERROR'', ''DATA''}"
  proof (intro allI impI)
    fix k m assume a: "fst (wait_for_response ser w) = Inr (k, m)"
    obtain r now1 rxs1 out1 where
      wl: "wait_loop (verbose w) (clock w) (clock w) (rx (ports w ser)) (stdout w) =
             (r, now1, rxs1, out1)"
      by (cases "wait_loop (verbose w) (clock w) (clock w) (rx (ports w ser)) (stdout w)") auto
    with a have "r = Inr (k, m)" by (simp add: wait_for_response_def)
    with wl wait_loop_kinds show "k \<in> {''OK'', ''WARN'', ''ERROR'', ''DATA''}" by blast
  qed
qed

theorem info_line_continues_witness:
  "wait_for_response ''COM1''
     (one_port [Rx 1 (''INFO: booting'' @ [CHR 0x0A]), Rx 1 (''OK: ready'' @ [CHR 0x0A])]) =
   wait_for_response ''COM1''
     ((one_port [Rx 1 (''INFO: booting'' @ [CHR 0x0A]), Rx 1 (''OK: ready'' @ [CHR 0x0A])])
        \<lparr>clock := clock (one_port [Rx 1 (''INFO: booting'' @ [CHR 0x0A]),
                                      Rx 1 (''OK: ready'' @ [CHR 0x0A])]) + 1,
         stdout := write_feedback
           (verbose (one_port [Rx 1 (''INFO: booting'' @ [CHR 0x0A]),
                               Rx 1 (''OK: ready'' @ [CHR 0x0A])]))
           (slice_from (rfind ''INFO: booting'' ''INFO:'') ''INFO: booting'')
           (stdout (one_port [Rx 1 (''INFO: booting'' @ [CHR 0x0A]),
                              Rx 1 (''OK: ready'' @ [CHR 0x0A])])),
         ports := (ports (one_port [Rx 1 (''INFO: booting'' @ [CHR 0x0A]),
                                    Rx 1 (''OK: ready'' @ [CHR 0x0A])]))
           (''COM1'' := (ports (one_port [Rx 1 (''INFO: booting'' @ [CHR 0x0A]),
                                          Rx 1 (''OK: ready'' @ [CHR 0x0A])]) ''COM1'')
              \<lparr>rx := [Rx 1 (''OK: ready'' @ [CHR 0x0A])]\<rparr>)\<rparr>)
   \<and> fst (wait_for_response ''COM1''
          (one_port [Rx 1 (''INFO: booting'' @ [CHR 0x0A]), Rx 1 (''OK: ready'' @ [CHR 0x0A])])) =
       Inr (''OK'', ''ready'')
   \<and> ''OK'' \<in> {''OK'', ''WARN'', ''ERROR'', ''DATA''}"
proof -
  let ?bs = "''INFO: booting'' @ [CHR 0x0A]"
  let ?w = "one_port [Rx 1 ?bs, Rx 1 (''OK: ready'' @ [CHR 0x0A])]"
  have 1: "rx (ports ?w ''COM1'') = Rx 1 ?bs # [Rx 1 (''OK: ready'' @ [CHR 0x0A])]" by code_simp
  have 2: "read_filterd_bytes ?bs = Some ''INFO: booting''" by code_simp
  have 3: "str_in ''INFO:'' ''INFO: booting'' \<and> \<not> str_in ''OK:'' ''INFO: booting'' \<and>
    \<not> str_in ''WARN:'' ''INFO: booting'' \<and> \<not> str_in ''ERROR:'' ''INFO: booting'' \<and>
    \<not> str_in ''DATA:'' ''INFO: booting''" by simp
  note t = info_line_continues[of ?w "''COM1''" 1 ?bs "[Rx 1 (''OK: ready'' @ [CHR 0x0A])]"
      "''INFO: booting''"]
  from t 1 2 3 have a: "wait_for_response ''COM1'' ?w =
      wait_for_response ''COM1''
        (?w\<lparr>clock := clock ?w + 1,
           stdout := write_feedback (verbose ?w)
                       (slice_from (rfind ''INFO: booting'' ''INFO:'') ''INFO: booting'') (stdout ?w),
           ports := (ports ?w)(''COM1'' := (ports ?w ''COM1'')
                       \<lparr>rx := [Rx 1 (''OK: ready'' @ [CHR 0x0A])]\<rparr>)\<rparr>)"
    by blast
  have b: "fst (wait_for_response ''COM1'' ?w) = Inr (''OK'', ''ready'')" by code_simp
  from t b have c: "''OK'' \<in> {''OK'', ''WARN'', ''ERROR'', ''DATA''}" by blast
  from a b c show ?thesis by (intro conjI)
qed




text \<open>
  Claim C6, as amended. Every line with at least one printable character starts the
  window afresh, recognized tag or not: after any run of lines without a tag the loop
  waits as if it had just been started at that moment, so such a run never produces a
  timeout.
\<close>

theorem window_reset_by_any_line:
  assumes "rx (ports w ser) = lines @ rest" and "\<forall>e \<in> set lines. untagged e"
  shows "wait_for_response ser w =
           wait_for_response ser
             (w\<lparr>clock := clock w + sum_list (map duration lines),
                ports := (ports w)(ser := (ports w ser)\<lparr>rx := rest\<rparr>)\<rparr>)"
  using assms
proof (induction lines arbitrary: w)
  case Nil
  have "(ports w)(ser := (ports w ser)\<lparr>rx := rest\<rparr>) = ports w"
    using Nil by (auto simp: fun_eq_iff)
  then show ?case by simp
next
  case (Cons e lines)
  from Cons.prems obtain dt bs res where e: "e = Rx dt bs" "read_filterd_bytes bs = Some res"
    and no: "\<not> str_in ''OK:'' res" "\<not> str_in ''WARN:'' res" "\<not> str_in ''ERROR:'' res"
      "\<not> str_in ''DATA:'' res" "\<not> str_in ''INFO:'' res"
    by (cases e) (auto split: option.splits)
  have pl: "parse_line res = None" using no by (simp add: parse_line_def)
  let ?w1 = "w\<lparr>clock := clock w + dt,
                ports := (ports w)(ser := (ports w ser)\<lparr>rx := lines @ rest\<rparr>)\<rparr>"
  have rx1: "rx (ports w ser) = Rx dt bs # (lines @ rest)" using Cons.prems e by simp
  have step: "wait_for_response ser w = wait_for_response ser ?w1"
    using wait_for_response_untagged[OF rx1 e(2) pl] no(5) by simp
  have ih: "wait_for_response ser ?w1 = wait_for_response ser
             (?w1\<lparr>clock := clock ?w1 + sum_list (map duration lines),
                ports := (ports ?w1)(ser := (ports ?w1 ser)\<lparr>rx := rest\<rparr>)\<rparr>)"
  proof (rule Cons.IH)
    show "rx (ports ?w1 ser) = lines @ rest" by simp
    show "\<forall>e \<in> set lines. untagged e" using Cons.prems by simp
  qed
  have eq: "?w1\<lparr>clock := clock ?w1 + sum_list (map duration lines),
                ports := (ports ?w1)(ser := (ports ?w1 ser)\<lparr>rx := rest\<rparr>)\<rparr> =
            w\<lparr>clock := clock w + sum_list (map duration (e # lines)),
                ports := (ports w)(ser := (ports w ser)\<lparr>rx := rest\<rparr>)\<rparr>"
    using e by (simp add: add.assoc)
  from step ih[unfolded eq] show ?case by (rule trans)
qed

theorem window_reset_by_any_line_witness:
  "wait_for_response ''COM1'' (one_port (chatter @ [Rx 1 (''OK: done'' @ [CHR 0x0A])])) =
   wait_for_response ''COM1''
     ((one_port (chatter @ [Rx 1 (''OK: done'' @ [CHR 0x0A])]))
        \<lparr>clock := clock (one_port (chatter @ [Rx 1 (''OK: done'' @ [CHR 0x0A])]))
                     + sum_list (map duration chatter),
         ports := (ports (one_port (chatter @ [Rx 1 (''OK: done'' @ [CHR 0x0A])])))
           (''COM1'' := (ports (one_port (chatter @ [Rx 1 (''OK: done'' @ [CHR 0x0A])])) ''COM1'')
              \<lparr>rx := [Rx 1 (''OK: done'' @ [CHR 0x0A])]\<rparr>)\<rparr>)
   \<and> sum_list (map duration chatter) = 6"
proof -
  let ?rest = "[Rx 1 (''OK: done'' @ [CHR 0x0A])]"
  have 1: "rx (ports (one_port (chatter @ ?rest)) ''COM1'') = chatter @ ?rest" by code_simp
  have 2: "\<forall>e \<in> set chatter. untagged e" by code_simp
  have 3: "sum_list (map duration chatter) = 6" by code_simp
  from window_reset_by_any_line[OF 1 2] 3 show ?thesis by (rule conjI)
qed

text \<open>The claim as stated fails: six lines without a tag, one second apart, and then
  \<open>OK:\<close> in the seventh second.\<close>

theorem untagged_stream_counterexample:
  "fst (wait_for_response ''COM1'' (one_port (chatter @ [Rx 1 (''OK: done'' @ [CHR 0x0A])]))) =
     Inr (''OK'', ''done'')
   \<and> clock (snd (wait_for_response ''COM1''
        (one_port (chatter @ [Rx 1 (''OK: done'' @ [CHR 0x0A])])))) = 7
   \<and> fst (wait_for_response ''COM1'' (one_port (chatter @ [Rx 1 (''OK: done'' @ [CHR 0x0A])]))) \<noteq>
     Inr (''ERROR'', ''Timeout'')"
  by code_simp

subsection \<open>Session operations\<close>



subsection \<open>The handshake\<close>




subsection \<open>Bulk transfer\<close>






subsection \<open>Releasing the connection\<close>

text \<open>
  Claim C1 asks that every command closes its connection on every way out. Writing a blank
  2048-byte image to a 2716 whose programmer acknowledges every block, reading a voltage,
  and pushing the configuration all end normally with the port still open: none of
  \<open>write_chip\<close>, \<open>read_voltage\<close>, \<open>rurp_config\<close> ever calls \<open>close\<close>. \<open>read_chip\<close> and
  \<open>firmware_check\<close> do close the port.
\<close>

theorem connection_left_open:
  "fst (write_chip ''2716'' (Some chip_2716) ''{state: 2}'' ''image.bin'' None
          (with_image (replicate 2048 (CHR 0xFF))
             (bench [ok_line ''ready'', ok_line ''1'', ok_line ''2'', ok_line ''3'', ok_line ''4'',
                     ok_line ''5'', ok_line ''6'', ok_line ''7'', ok_line ''8'']))) = Inr ()
   \<and> is_open (ports (snd (write_chip ''2716'' (Some chip_2716) ''{state: 2}'' ''image.bin'' None
          (with_image (replicate 2048 (CHR 0xFF))
             (bench [ok_line ''ready'', ok_line ''1'', ok_line ''2'', ok_line ''3'', ok_line ''4'',
                     ok_line ''5'', ok_line ''6'', ok_line ''7'', ok_line ''8''])))) ''COM1'')
   \<and> fst (read_voltage ''{state: 12}'' STATE_READ_VCC
          (bench [ok_line ''ready'', data_line ''5.02'', ok_line ''done''])) = Inr ()
   \<and> is_open (ports (snd (read_voltage ''{state: 12}'' STATE_READ_VCC
          (bench [ok_line ''ready'', data_line ''5.02'', ok_line ''done'']))) ''COM1'')
   \<and> fst (rurp_config ''{state: 14}'' (bench [ok_line ''ready'', ok_line ''vcc 5.0''])) = Inr ()
   \<and> is_open (ports (snd (rurp_config ''{state: 14}''
          (bench [ok_line ''ready'', ok_line ''vcc 5.0'']))) ''COM1'')
   \<and> \<not> is_open (ports (snd (read_chip ''2716'' (Some chip_2716) ''{state: 1}'' None
          (bench [ok_line ''ready'', ok_line ''done'']))) ''COM1'')
   \<and> \<not> is_open (ports (snd (firmware_check (Some ''1.0.0'', Some ''u'') ''{state: 13}''
          (bench [ok_line ''ready'', ok_line ''1.0.0'']))) ''COM1'')"
proof (intro conjI)
  let ?w = "with_image (replicate 2048 (CHR 0xFF))
             (bench [ok_line ''ready'', ok_line ''1'', ok_line ''2'', ok_line ''3'', ok_line ''4'',
                     ok_line ''5'', ok_line ''6'', ok_line ''7'', ok_line ''8''])"
  show "fst (write_chip ''2716'' (Some chip_2716) ''{state: 2}'' ''image.bin'' None ?w) = Inr ()"
    by (simp add: run_simps write_chip_def parse_address_def write_loop.simps chip_2716_def)
  show "is_open (ports (snd (write_chip ''2716'' (Some chip_2716) ''{state: 2}'' ''image.bin'' None ?w))
          ''COM1'')"
    by (simp add: run_simps write_chip_def parse_address_def write_loop.simps chip_2716_def)
  let ?v = "bench [ok_line ''ready'', data_line ''5.02'', ok_line ''done'']"
  show "fst (read_voltage ''{state: 12}'' STATE_READ_VCC ?v) = Inr ()"
    by (simp add: run_simps read_voltage_def voltage_loop.simps STATE_READ_VCC_def
          STATE_READ_VPP_def)
  show "is_open (ports (snd (read_voltage ''{state: 12}'' STATE_READ_VCC ?v)) ''COM1'')"
    by (simp add: run_simps read_voltage_def voltage_loop.simps STATE_READ_VCC_def
          STATE_READ_VPP_def)
  let ?c = "bench [ok_line ''ready'', ok_line ''vcc 5.0'']"
  show "fst (rurp_config ''{state: 14}'' ?c) = Inr ()"
    by (simp add: run_simps rurp_config_def)
  show "is_open (ports (snd (rurp_config ''{state: 14}'' ?c)) ''COM1'')"
    by (simp add: run_simps rurp_config_def)
  show "\<not> is_open (ports (snd (read_chip ''2716'' (Some chip_2716) ''{state: 1}'' None
          (bench [ok_line ''ready'', ok_line ''done'']))) ''COM1'')"
    by (simp add: run_simps read_chip_def read_loop.simps chip_2716_def)
  show "\<not> is_open (ports (snd (firmware_check (Some ''1.0.0'', Some ''u'') ''{state: 13}''
          (bench [ok_line ''ready'', ok_line ''1.0.0'']))) ''COM1'')"
    by (simp add: run_simps firmware_check_def version_older_def int_less_def py_int_def
          split_sign_def digits_value_def digit_val_def is_digit_def)
qed

end
